theory Spec2Isabelle
  imports Complex_Main "HOL-Library.Word"
begin

section \<open>Object primitives\<close>

text \<open>
  The writer in \<^verbatim>\<open>src/core/annotation_writer.js\<close> builds PDF objects from the
  primitives \<^verbatim>\<open>Ref\<close>, \<^verbatim>\<open>Name\<close> and \<^verbatim>\<open>Dict\<close>. A \<^verbatim>\<open>Ref\<close> is an object
  number with a generation. The values a dictionary holds are names, strings, numbers,
  references, arrays and nested dictionaries; \<open>Undefined\<close> is JavaScript's
  \<^verbatim>\<open>undefined\<close>, what a lookup of an absent key gives, and \<open>NaN\<close> is the
  number \<^verbatim>\<open>NaN\<close>, which \<^verbatim>\<open>parseInt\<close> gives for an infinite number.

  A JavaScript number is a double. A finite double is the rational it stands for, and
  the arithmetic of the source is the exact operation followed by the rounding to the
  nearest double (section on numbers below). Object numbers and \<^verbatim>\<open>Size\<close> are
  natural numbers, incremented as doubles are.
\<close>

datatype ref = Ref (num: nat) (gen: nat)

datatype obj =
    Undefined
  | NaN
  | Name string
  | Str string
  | Num rat
  | RefObj ref
  | Arr "obj list"
  | DictObj "(string \<times> obj) list"

type_synonym dict = "(string \<times> obj) list"

text \<open>
  Modelled from the spec: \<^verbatim>\<open>Dict\<close> of \<^verbatim>\<open>src/core/primitives.js\<close>, which is not
  among the sources. The spec gives it as an ordered mapping with unique keys where the
  last write wins, with \<^verbatim>\<open>set\<close>, retrieval of the unmodified stored value
  (\<^verbatim>\<open>getRaw\<close>) and enumeration of the keys in insertion order (\<^verbatim>\<open>getKeys\<close>).
  A dictionary is the list of its entries in insertion order; \<open>Dict_set\<close> overwrites
  the value of a key that is present, where it stands, and appends a new key at the end.
\<close>

definition Dict_new :: dict where
  "Dict_new = []"

fun Dict_set :: "dict \<Rightarrow> string \<Rightarrow> obj \<Rightarrow> dict" where
  "Dict_set [] k v = [(k, v)]"
| "Dict_set ((k', v') # kvs) k v =
     (if k' = k then (k, v) # kvs else (k', v') # Dict_set kvs k v)"

definition getKeys :: "dict \<Rightarrow> string list" where
  "getKeys d = map fst d"

definition getRaw :: "dict \<Rightarrow> string \<Rightarrow> obj" where
  "getRaw d k = (case map_of d k of Some v \<Rightarrow> v | None \<Rightarrow> Undefined)"

definition has :: "dict \<Rightarrow> string \<Rightarrow> bool" where
  "has d k = (k \<in> set (getKeys d))"

section \<open>Numbers\<close>

text \<open>
  A double has 53 significant bits. For a positive rational \<open>a\<close>, \<open>exponent a\<close> is
  the \<open>e\<close> with \<open>2\<^sup>e \<le> a < 2\<^sup>e\<^sup>+\<^sup>1\<close> (\<open>bits n\<close> is the length of \<open>n\<close> in binary), and
  \<open>ulp a\<close> the distance of the doubles around \<open>a\<close>: \<open>2\<^sup>e\<^sup>-\<^sup>5\<^sup>2\<close>, and \<open>2\<^sup>-\<^sup>1\<^sup>0\<^sup>7\<^sup>4\<close> for
  the subnormal numbers below \<open>2\<^sup>-\<^sup>1\<^sup>0\<^sup>2\<^sup>2\<close>. \<open>round_double v\<close> is the double nearest to
  \<open>v\<close>, the one with the even significand when two are equally near: the result of an
  arithmetic operation whose exact value is \<open>v\<close>, as long as it is finite.
\<close>

fun bits :: "nat \<Rightarrow> nat" where
  "bits n = (if n = 0 then 0 else Suc (bits (n div 2)))"

declare bits.simps [simp del]

definition exponent :: "rat \<Rightarrow> int" where
  "exponent a =
     (if 1 \<le> a then int (bits (nat \<lfloor>a\<rfloor>)) - 1
      else - int (bits (nat (\<lceil>1 / a\<rceil> - 1))))"

definition ulp :: "rat \<Rightarrow> rat" where
  "ulp a =
     (let e = max (exponent a) (- 1022)
      in if 52 \<le> e then 2 ^ nat (e - 52) else 1 / 2 ^ nat (52 - e))"

definition round_half_even :: "rat \<Rightarrow> int" where
  "round_half_even q =
     (let r = \<lfloor>q\<rfloor>; f = q - of_int r
      in if f < 1 / 2 then r
         else if 1 / 2 < f then r + 1
         else if even r then r else r + 1)"

definition round_double :: "rat \<Rightarrow> rat" where
  "round_double v =
     (if v = 0 then 0
      else if v < 0 then - (of_int (round_half_even (- v / ulp (- v))) * ulp (- v))
      else of_int (round_half_even (v / ulp v)) * ulp v)"

text \<open>
  The product of two finite doubles is the rounded exact product, or infinite when
  that is beyond the largest double (from \<open>2\<^sup>1\<^sup>0\<^sup>2\<^sup>4 - 2\<^sup>9\<^sup>7\<^sup>0\<close> on, the exact product rounds
  to infinity). The sign of an infinity or of a zero makes no difference below.
\<close>

datatype number = Finite rat | Infinity

definition js_times :: "rat \<Rightarrow> rat \<Rightarrow> number" where
  "js_times x y =
     (if 2 ^ 1024 - 2 ^ 970 \<le> \<bar>x * y\<bar> then Infinity else Finite (round_double (x * y)))"

text \<open>
  \<^verbatim>\<open>size + 1\<close> on a \<^verbatim>\<open>Size\<close> that is a natural number (and a double): exact below
  \<open>2\<^sup>5\<^sup>3\<close>; from there to \<open>2\<^sup>5\<^sup>4\<close> the doubles are the even numbers and the sum lies
  midway between two of them, so it is rounded to the one with the even significand,
  the multiple of 4; from \<open>2\<^sup>5\<^sup>4\<close> on the sum is rounded back to \<^verbatim>\<open>size\<close>.
\<close>

definition plus_one :: "nat \<Rightarrow> nat" where
  "plus_one n =
     (if n < 2 ^ 53 then n + 1
      else if n < 2 ^ 54 then (if n mod 4 = 0 then n else n + 2)
      else n)"

text \<open>
  \<^verbatim>\<open>parseInt(v)\<close> of a number \<open>v\<close> converts \<open>v\<close> to its string and reads the
  leading integer of that string; of an infinity it is \<^verbatim>\<open>NaN\<close>, here \<open>None\<close>. The
  string of a double is the shortest decimal that rounds to it. It is in positional
  notation when it lies from \<open>10\<^sup>-\<^sup>6\<close> up to, and not including, \<open>10\<^sup>2\<^sup>1\<close>, which is when
  the double lies from the double of \<open>10\<^sup>-\<^sup>6\<close> up to \<open>10\<^sup>2\<^sup>1\<close>; the leading integer is
  then the double truncated toward zero. Otherwise the string is in exponent notation
  (\<^verbatim>\<open>5.7e-7\<close>, \<^verbatim>\<open>3e+21\<close>) and the leading integer is its first digit: the first
  significant digit \<open>d\<close> of the double, or the next digit when already the
  one-digit decimal above, \<open>(d + 1) * w\<close>, rounds to the double (the double of
  \<^verbatim>\<open>1e-7\<close> lies below \<open>10\<^sup>-\<^sup>7\<close> and prints as \<^verbatim>\<open>1e-7\<close>).

  \<open>digits n\<close> is the number of decimal digits of \<open>n\<close>, and \<open>decade a\<close> the power
  \<open>w\<close> of ten with \<open>w \<le> a < 10 * w\<close>.
\<close>

fun digits :: "nat \<Rightarrow> nat" where
  "digits n = (if n < 10 then 1 else Suc (digits (n div 10)))"

declare digits.simps [simp del]

definition decade :: "rat \<Rightarrow> rat" where
  "decade a =
     (if 1 \<le> a then 10 ^ (digits (nat \<lfloor>a\<rfloor>) - 1)
      else (let k = digits (nat \<lfloor>1 / a\<rfloor>)
            in if a * 10 ^ k = 10 then 10 / 10 ^ k else 1 / 10 ^ k))"

definition printed_digit :: "rat \<Rightarrow> nat" where
  "printed_digit a =
     (let w = decade a; d = nat \<lfloor>a / w\<rfloor>
      in if round_double (of_nat (d + 1) * w) = a then (if d = 9 then 1 else d + 1) else d)"

definition trunc :: "rat \<Rightarrow> int" where
  "trunc v = (if v < 0 then - \<lfloor>- v\<rfloor> else \<lfloor>v\<rfloor>)"

definition parseInt :: "number \<Rightarrow> rat option" where
  "parseInt x =
     (case x of
        Infinity \<Rightarrow> None
      | Finite v \<Rightarrow>
          Some (if v = 0 then 0
                else if \<bar>v\<bar> < round_double (1 / 10 ^ 6) \<or> 10 ^ 21 \<le> \<bar>v\<bar>
                then (if v < 0 then - of_nat (printed_digit (- v))
                      else of_nat (printed_digit v))
                else of_int (trunc v)))"

text \<open>
  \<^verbatim>\<open>x + 12\<close> on what \<^verbatim>\<open>parseInt\<close> gave: \<^verbatim>\<open>NaN\<close> stays, and a number, which is
  below \<open>10\<^sup>2\<^sup>1\<close>, gives the rounded sum. \<open>number_obj\<close> is the value as an element of
  an array.
\<close>

definition js_plus :: "rat option \<Rightarrow> rat \<Rightarrow> rat option" where
  "js_plus x n = (case x of None \<Rightarrow> None | Some r \<Rightarrow> Some (round_double (r + n)))"

definition number_obj :: "rat option \<Rightarrow> obj" where
  "number_obj x = (case x of None \<Rightarrow> NaN | Some r \<Rightarrow> Num r)"

section \<open>The annotation request, the page and the document\<close>

text \<open>
  \<open>AnnotationCoordinates\<close> and \<open>AnnotationProperties\<close> are the typedefs of
  \<^verbatim>\<open>annotation_writer.js\<close>; an author that was not supplied
  (\<^verbatim>\<open>author === undefined\<close>) is \<open>None\<close>.
\<close>

record AnnotationCoordinates =
  coords_x :: rat
  coords_y :: rat

record AnnotationProperties =
  page :: int
  coords :: AnnotationCoordinates
  contents :: string
  author :: "string option"

text \<open>
  Modelled from the spec: the page and the parsed document of
  \<^verbatim>\<open>src/core/document.js\<close>, which is not among the sources. A page has its
  identity \<^verbatim>\<open>ref\<close>, its \<^verbatim>\<open>view\<close> rectangle \<open>[x0, y0, x1, y1]\<close>, its backing
  dictionary \<^verbatim>\<open>pageDict\<close> and its mutable \<^verbatim>\<open>annotations\<close> sequence. The document
  owns its pages, the trailer of its cross-reference table and the offset
  \<^verbatim>\<open>startXRef\<close> of that table; \<^verbatim>\<open>getPage\<close> resolves a zero-based page index and
  fails on an index that names no page. The trailer is a dictionary that holds at
  least \<^verbatim>\<open>Size\<close>, a number: it is a record of \<open>Size\<close> and of its other entries.

  The \<^verbatim>\<open>annotations\<close> array of a page can be the very array that its
  \<^verbatim>\<open>pageDict\<close> holds under \<^verbatim>\<open>Annots\<close> (a page whose \<^verbatim>\<open>Annots\<close> is written
  in place), or an array of its own (a page without \<^verbatim>\<open>Annots\<close>, or with an
  indirect or inherited one). \<open>annotsShared\<close> tells which: when it holds, what is
  pushed to the one array shows in both places. \<open>push\<close> is
  \<^verbatim>\<open>pdfPage.annotations.push\<close>; it adds no key to the dictionary and touches no
  other value.
\<close>

type_synonym view = "rat \<times> rat \<times> rat \<times> rat"

fun view_2 :: "view \<Rightarrow> rat" where
  "view_2 (x0, y0, x1, y1) = x1"

fun view_3 :: "view \<Rightarrow> rat" where
  "view_3 (x0, y0, x1, y1) = y1"

record Page =
  ref :: ref
  view :: view
  pageDict :: dict
  annotations :: "obj list"
  annotsShared :: bool

definition push :: "Page \<Rightarrow> obj \<Rightarrow> Page" where
  "push pdfPage x =
     pdfPage
       \<lparr>annotations := annotations pdfPage @ [x],
        pageDict :=
          (if annotsShared pdfPage
           then map (\<lambda>(k, v). if k = ''Annots''
                             then (k, Arr (annotations pdfPage @ [x])) else (k, v))
                  (pageDict pdfPage)
           else pageDict pdfPage)\<rparr>"

record Trailer =
  Size :: nat
  entries :: dict

record PDFDocument =
  trailer :: Trailer
  startXRef :: int
  pages :: "Page list"

datatype error =
    InvalidPageIndex int
  | StreamError string

definition getPage :: "PDFDocument \<Rightarrow> int \<Rightarrow> error + Page" where
  "getPage pdfDocument pageIndex =
     (if 0 \<le> pageIndex \<and> pageIndex < int (length (pages pdfDocument))
      then Inr (pages pdfDocument ! nat pageIndex)
      else Inl (InvalidPageIndex pageIndex))"

section \<open>The annotation dictionary\<close>

text \<open>
  \<^verbatim>\<open>annotationDict(annotation, pdfPage)\<close> of \<^verbatim>\<open>annotation_writer.js\<close>, statement
  by statement: \<^verbatim>\<open>Type\<close>, then \<^verbatim>\<open>Rect\<close> from \<^verbatim>\<open>view[2]\<close> and \<^verbatim>\<open>view[3]\<close>,
  then \<^verbatim>\<open>Subtype\<close> and \<^verbatim>\<open>Contents\<close>, and \<^verbatim>\<open>T\<close> when an author was given.
\<close>

definition annotationDict :: "AnnotationProperties \<Rightarrow> Page \<Rightarrow> dict" where
  "annotationDict annotation pdfPage =
     (let d0 = Dict_set Dict_new ''Type'' (Name ''Annot'');
          width = view_2 (view pdfPage);
          height = view_3 (view pdfPage);
          x = parseInt (js_times (coords_x (coords annotation)) width);
          y = parseInt (js_times (coords_y (coords annotation)) height);
          d1 = Dict_set d0 ''Rect''
                 (Arr [number_obj x, number_obj y,
                       number_obj (js_plus x 12), number_obj (js_plus y 10)]);
          d2 = Dict_set d1 ''Subtype'' (Name ''Text'');
          d3 = Dict_set d2 ''Contents'' (Str (contents annotation))
      in case author annotation of
           None \<Rightarrow> d3
         | Some a \<Rightarrow> Dict_set d3 ''T'' (Str a))"

section \<open>The incremental update writer\<close>

text \<open>
  Modelled from the spec: \<^verbatim>\<open>PDFDataWriter\<close> of \<^verbatim>\<open>src/core/pdf_data_writer.js\<close>,
  which is not among the sources. It is a builder: the spec fixes what is serialised
  and in which order, not the bytes. A writer is therefore its constructor arguments
  with the sequence of calls it has received, and its serialiser
  \<^verbatim>\<open>toUint8Array\<close> is a parameter of \<open>writeAnnotation\<close>.
\<close>

type_synonym byte = "8 word"

datatype call =
    SetTrailer Trailer
  | SetStartXRef int
  | StartObj ref
  | AppendDict dict
  | EndObj
  | AppendTrailer

record PDFDataWriter =
  w_data :: "byte list option"
  w_byteLength :: nat
  w_calls :: "call list"

definition new_PDFDataWriter :: "byte list option \<Rightarrow> nat \<Rightarrow> PDFDataWriter" where
  "new_PDFDataWriter data byteLength =
     \<lparr>w_data = data, w_byteLength = byteLength, w_calls = []\<rparr>"

definition called :: "call \<Rightarrow> PDFDataWriter \<Rightarrow> PDFDataWriter" where
  "called c w = w\<lparr>w_calls := w_calls w @ [c]\<rparr>"

definition setTrailer :: "Trailer \<Rightarrow> PDFDataWriter \<Rightarrow> PDFDataWriter" where
  "setTrailer t = called (SetTrailer t)"

definition setStartXRef :: "int \<Rightarrow> PDFDataWriter \<Rightarrow> PDFDataWriter" where
  "setStartXRef n = called (SetStartXRef n)"

definition startObj :: "ref \<Rightarrow> PDFDataWriter \<Rightarrow> PDFDataWriter" where
  "startObj r = called (StartObj r)"

definition appendDict :: "dict \<Rightarrow> PDFDataWriter \<Rightarrow> PDFDataWriter" where
  "appendDict d = called (AppendDict d)"

definition endObj :: "PDFDataWriter \<Rightarrow> PDFDataWriter" where
  "endObj = called EndObj"

definition appendTrailer :: "PDFDataWriter \<Rightarrow> PDFDataWriter" where
  "appendTrailer = called AppendTrailer"

text \<open>
  The objects a writer was given, in file order: each \<^verbatim>\<open>startObj(ref)\<close> with the
  dictionary appended to it.
\<close>

fun objects :: "call list \<Rightarrow> (ref \<times> dict) list" where
  "objects (StartObj r # AppendDict d # EndObj # cs) = (r, d) # objects cs"
| "objects (c # cs) = objects cs"
| "objects [] = []"

text \<open>
  The loop of \<^verbatim>\<open>writeAnnotation\<close> over \<^verbatim>\<open>pageDict.getKeys()\<close>, which copies the
  raw value of every key but \<^verbatim>\<open>Annots\<close> into the new page dictionary.
\<close>

fun copyKeys :: "dict \<Rightarrow> string list \<Rightarrow> dict \<Rightarrow> dict" where
  "copyKeys pd [] newPageDict = newPageDict"
| "copyKeys pd (k # ks) newPageDict =
     copyKeys pd ks
       (if k \<noteq> ''Annots'' then Dict_set newPageDict k (getRaw pd k)
        else newPageDict)"

text \<open>
  \<^verbatim>\<open>writeAnnotation(pdfDocument, annotation, byteLength)\<close>. The function returns a
  promise; the model returns the document as the call leaves it together with what
  the promise settles to: \<open>Inl\<close> the failure of \<^verbatim>\<open>getPage\<close>, or \<open>Inr\<close> the bytes.
  The trailer's \<^verbatim>\<open>Size\<close> is read and set to \<^verbatim>\<open>size + 1\<close> before the page is
  requested, and \<^verbatim>\<open>annotations.push\<close> acts on the page's own \<^verbatim>\<open>annotations\<close>
  array, so the page of the document (\<open>pdfPage'\<close>) holds the new reference afterwards,
  and so does its dictionary when the array is the one under \<^verbatim>\<open>Annots\<close>.
  One call runs to its end before the next: interleavings of two calls are not
  modelled.

  The same statements stand inlined in \<^verbatim>\<open>src/editing/annotating.js\<close> and in the older
  revision of \<^verbatim>\<open>BasePdfManager.annotateDocument\<close>, whose requests have no author.
\<close>

definition writeAnnotation ::
  "(PDFDataWriter \<Rightarrow> 'b) \<Rightarrow> PDFDocument \<Rightarrow> AnnotationProperties \<Rightarrow> nat
    \<Rightarrow> PDFDocument \<times> (error + 'b)" where
  "writeAnnotation toUint8Array pdfDocument annotation byteLength =
     (let size = Size (trailer pdfDocument);
          newAnnotationRef = Ref size 0;
          trailer' = (trailer pdfDocument)\<lparr>Size := plus_one size\<rparr>;
          pdfDocument' = pdfDocument\<lparr>trailer := trailer'\<rparr>
      in case getPage pdfDocument' (page annotation) of
           Inl e \<Rightarrow> (pdfDocument', Inl e)
         | Inr pdfPage \<Rightarrow>
            (let pageRef = ref pdfPage;
                 pdfPage' = push pdfPage (RefObj newAnnotationRef);
                 newPageDict =
                   Dict_set
                     (copyKeys (pageDict pdfPage') (getKeys (pageDict pdfPage')) Dict_new)
                     ''Annots'' (Arr (annotations pdfPage'));
                 newAnnotationDict = annotationDict annotation pdfPage';
                 w = appendTrailer (endObj (appendDict newPageDict (startObj pageRef
                       (endObj (appendDict newAnnotationDict (startObj newAnnotationRef
                         (setStartXRef (startXRef pdfDocument')
                           (setTrailer trailer'
                             (new_PDFDataWriter None byteLength)))))))))
             in (pdfDocument'\<lparr>pages := (pages pdfDocument')[nat (page annotation) := pdfPage']\<rparr>,
                 Inr (toUint8Array w))))"

text \<open>
  What a call of \<open>writeAnnotation\<close> hands to the writer, read off the writer before
  it is serialised: the objects of the update fragment in file order, or the failure.
\<close>

definition writtenObjects ::
  "PDFDocument \<Rightarrow> AnnotationProperties \<Rightarrow> nat \<Rightarrow> error + (ref \<times> dict) list" where
  "writtenObjects d a bl =
     (case snd (writeAnnotation (\<lambda>w. w) d a bl) of
        Inl e \<Rightarrow> Inl e
      | Inr w \<Rightarrow> Inr (objects (w_calls w)))"


text \<open>
  The rectangle as the specification words it, for comparison with the one of
  \<open>annotationDict\<close>: \<open>W\<close> and \<open>H\<close> are the width and the height of the view
  rectangle \<open>[x0, y0, x1, y1]\<close>, and the products, taken exactly, are truncated toward
  zero.
\<close>

definition Rect_spec :: "view \<Rightarrow> AnnotationCoordinates \<Rightarrow> obj" where
  "Rect_spec v c =
     (case v of
        (x0, y0, x1, y1) \<Rightarrow>
          (let W = x1 - x0;
               H = y1 - y0;
               x = trunc (coords_x c * W);
               y = trunc (coords_y c * H)
           in Arr [Num (of_int x), Num (of_int y),
                   Num (of_int (x + 12)), Num (of_int (y + 10))]))"

text \<open>
  The end-to-end scenario of the specification, used for the concrete instances below:
  a document whose trailer has \<^verbatim>\<open>Size\<close> 10 and whose page 0 has the view
  \<open>[0, 0, 612, 792]\<close> and one annotation already, in an \<^verbatim>\<open>Annots\<close> array written
  in place, and the request for a note \<^verbatim>\<open>hello\<close> by \<^verbatim>\<open>A\<close> in the middle of that
  page.
\<close>

definition scenario_page :: Page where
  "scenario_page =
     \<lparr>ref = Ref 3 0,
      view = (0, 0, 612, 792),
      pageDict =
        [(''Type'', Name ''Page''),
         (''Annots'', Arr [RefObj (Ref 7 0)]),
         (''Parent'', RefObj (Ref 1 0)),
         (''MediaBox'', Arr [Num 0, Num 0, Num 612, Num 792])],
      annotations = [RefObj (Ref 7 0)],
      annotsShared = True\<rparr>"

definition scenario_document :: PDFDocument where
  "scenario_document =
     \<lparr>trailer = \<lparr>Size = 10, entries = [(''Root'', RefObj (Ref 1 0))]\<rparr>,
      startXRef = 4000,
      pages = [scenario_page]\<rparr>"

definition scenario_annotation :: AnnotationProperties where
  "scenario_annotation =
     \<lparr>page = 0,
      coords = \<lparr>coords_x = 1 / 2, coords_y = 1 / 2\<rparr>,
      contents = ''hello'',
      author = Some ''A''\<rparr>"

text \<open>
  A second page, whose \<^verbatim>\<open>Annots\<close> is the indirect reference to the array of its
  annotations, and the scenario's document with a trailer whose \<^verbatim>\<open>Size\<close> is
  \<open>2\<^sup>5\<^sup>3\<close>.
\<close>

definition scenario_indirect_page :: Page where
  "scenario_indirect_page =
     \<lparr>ref = Ref 5 0,
      view = (0, 0, 300, 400),
      pageDict = [(''Type'', Name ''Page''), (''Annots'', RefObj (Ref 8 0))],
      annotations = [RefObj (Ref 7 0)],
      annotsShared = False\<rparr>"



section \<open>The document accessor variants\<close>

text \<open>
  A manager of \<^verbatim>\<open>src/core/pdf_manager.js\<close> holds the parsed document and the
  promise of its loaded stream; \<open>loadedStream\<close> is what \<^verbatim>\<open>onLoadedStream()\<close>
  settles to after \<^verbatim>\<open>requestLoadedStream()\<close>: the bytes, or the failure of the
  byte-range source. The parser (\<^verbatim>\<open>new PDFDocument\<close>) and the re-parse of the layered
  variant (\<^verbatim>\<open>pdfDocument.update\<close>) belong to \<^verbatim>\<open>document.js\<close>, which is not among
  the sources: the parsed document and \<open>update\<close> are parameters.
\<close>

record PdfManager =
  pdfDocument :: PDFDocument
  loadedStream :: "error + byte list"

definition LocalPdfManager :: "PDFDocument \<Rightarrow> byte list \<Rightarrow> PdfManager" where
  "LocalPdfManager parsed data = \<lparr>pdfDocument = parsed, loadedStream = Inr data\<rparr>"

definition NetworkPdfManager :: "PDFDocument \<Rightarrow> error + byte list \<Rightarrow> PdfManager" where
  "NetworkPdfManager parsed loaded = \<lparr>pdfDocument = parsed, loadedStream = loaded\<rparr>"


text \<open>
  \<^verbatim>\<open>BasePdfManager.annotateDocument(annotation)\<close>, shared by the three variants: it
  waits for the loaded stream and passes its length to \<open>writeAnnotation\<close>.
\<close>

definition annotateDocument ::
  "(PDFDataWriter \<Rightarrow> 'b) \<Rightarrow> PdfManager \<Rightarrow> AnnotationProperties
    \<Rightarrow> PdfManager \<times> (error + 'b)" where
  "annotateDocument toUint8Array mgr annotation =
     (case loadedStream mgr of
        Inl e \<Rightarrow> (mgr, Inl e)
      | Inr bytes \<Rightarrow>
          (case writeAnnotation toUint8Array (pdfDocument mgr) annotation (length bytes) of
             (pdfDocument', r) \<Rightarrow> (mgr\<lparr>pdfDocument := pdfDocument'\<rparr>, r)))"

section \<open>The \<^verbatim>\<open>ensure\<close> protocol\<close>

text \<open>
  \<^verbatim>\<open>ensure(obj, prop, args)\<close> reads \<^verbatim>\<open>obj[prop]\<close> and, when that is a function,
  applies it to \<^verbatim>\<open>args\<close>. Either step can throw: a \<^verbatim>\<open>MissingDataException\<close> with
  the range \<open>[begin, end)\<close> it lacks, or anything else. What the operation does depends
  on the bytes the stream holds, the state \<open>'s\<close> of the byte-range source. A promise
  that the operation returns is a value as any other: only what is thrown while the
  operation is evaluated reaches the \<^verbatim>\<open>catch\<close> of \<^verbatim>\<open>ensure\<close>.
\<close>

datatype 'e exn =
    MissingDataException nat nat
  | OtherException 'e

datatype ('e, 'v) outcome =
    Returned 'v
  | Threw "'e exn"

datatype ('e, 'v) promise =
    Resolved 'v
  | Rejected "'e exn"

datatype ('s, 'a, 'e, 'v) member =
    Property "'s \<Rightarrow> ('e, 'v) outcome"
  | Function "'a \<Rightarrow> 's \<Rightarrow> ('e, 'v) outcome"

definition invoke ::
  "('p \<Rightarrow> ('s, 'a, 'e, 'v) member) \<Rightarrow> 'p \<Rightarrow> 'a \<Rightarrow> 's \<Rightarrow> ('e, 'v) outcome" where
  "invoke obj prop args s =
     (case obj prop of
        Property g \<Rightarrow> g s
      | Function f \<Rightarrow> f args s)"

text \<open>
  To state what \<^verbatim>\<open>ensure\<close> does besides settling, the state of the byte-range
  source carries the trace of what happened, oldest first: each evaluation of the
  operation and each range requested from the source.
\<close>

datatype event =
    Evaluated
  | RangeRequested nat nat

type_synonym 's source = "'s \<times> event list"

text \<open>
  \<^verbatim>\<open>LocalPdfManager.ensure\<close> and \<^verbatim>\<open>UpdatePdfManager.ensure\<close> have the same
  body, without \<^verbatim>\<open>try\<close>: being \<^verbatim>\<open>async\<close>, what the operation throws rejects the
  promise they return.
\<close>

definition LocalPdfManager_ensure ::
  "('p \<Rightarrow> ('s, 'a, 'e, 'v) member) \<Rightarrow> 'p \<Rightarrow> 'a \<Rightarrow> 's source
    \<Rightarrow> ('e, 'v) promise \<times> 's source" where
  "LocalPdfManager_ensure obj prop args src =
     (case invoke obj prop args (fst src) of
        Returned v \<Rightarrow> (Resolved v, fst src, snd src @ [Evaluated])
      | Threw ex \<Rightarrow> (Rejected ex, fst src, snd src @ [Evaluated]))"

definition UpdatePdfManager_ensure ::
  "('p \<Rightarrow> ('s, 'a, 'e, 'v) member) \<Rightarrow> 'p \<Rightarrow> 'a \<Rightarrow> 's source
    \<Rightarrow> ('e, 'v) promise \<times> 's source" where
  "UpdatePdfManager_ensure obj prop args src =
     (case invoke obj prop args (fst src) of
        Returned v \<Rightarrow> (Resolved v, fst src, snd src @ [Evaluated])
      | Threw ex \<Rightarrow> (Rejected ex, fst src, snd src @ [Evaluated]))"

text \<open>
  \<^verbatim>\<open>NetworkPdfManager.ensure\<close> catches a \<^verbatim>\<open>MissingDataException\<close>, awaits
  \<^verbatim>\<open>requestRange(ex.begin, ex.end)\<close> of the stream manager (a parameter: the
  chunked stream manager is not among the sources; it gives the state of the source
  with the range fetched, or fails) and calls itself again. Nothing bounds the
  retries, so the result is optional: \<open>None\<close> is a promise that never settles.
\<close>

partial_function (option) NetworkPdfManager_ensure ::
  "(nat \<Rightarrow> nat \<Rightarrow> 's \<Rightarrow> 'e exn + 's) \<Rightarrow> ('p \<Rightarrow> ('s, 'a, 'e, 'v) member) \<Rightarrow> 'p \<Rightarrow> 'a
    \<Rightarrow> 's source \<Rightarrow> (('e, 'v) promise \<times> 's source) option" where
  "NetworkPdfManager_ensure requestRange obj prop args src =
     (case invoke obj prop args (fst src) of
        Returned v \<Rightarrow> Some (Resolved v, fst src, snd src @ [Evaluated])
      | Threw ex \<Rightarrow>
          (case ex of
             OtherException x \<Rightarrow> Some (Rejected ex, fst src, snd src @ [Evaluated])
           | MissingDataException b e \<Rightarrow>
               (case requestRange b e (fst src) of
                  Inl ex' \<Rightarrow>
                    Some (Rejected ex', fst src, snd src @ [Evaluated, RangeRequested b e])
                | Inr s' \<Rightarrow>
                    NetworkPdfManager_ensure requestRange obj prop args
                      (s', snd src @ [Evaluated, RangeRequested b e]))))"

text \<open>
  A concrete target for the instances below. The state of the source is the list of
  the ranges fetched so far. The property \<^verbatim>\<open>numPages\<close> needs the bytes of the
  range \<open>[100, 200)\<close> and signals them missing until they are fetched; the method
  \<^verbatim>\<open>getPageDict\<close> fails on an index that is not below 3 with an error that is not
  a missing-range signal; any other property is undefined.
\<close>

definition scenario_catalog ::
  "string \<Rightarrow> ((nat \<times> nat) list, nat, string, nat option) member" where
  "scenario_catalog prop =
     (if prop = ''numPages''
      then Property (\<lambda>s. if (100, 200) \<in> set s then Returned (Some 3)
                         else Threw (MissingDataException 100 200))
      else if prop = ''getPageDict''
      then Function (\<lambda>i s. if i < 3 then Returned (Some i)
                           else Threw (OtherException ''Page index out of bounds''))
      else Property (\<lambda>s. Returned None))"

definition scenario_requestRange ::
  "nat \<Rightarrow> nat \<Rightarrow> (nat \<times> nat) list \<Rightarrow> string exn + (nat \<times> nat) list" where
  "scenario_requestRange b e s = Inr (s @ [(b, e)])"

section \<open>Evaluating numbers\<close>

lemma floor_rat_numeral_divide:
  "\<lfloor>numeral m / numeral n :: rat\<rfloor> = numeral m div numeral n"
  using floor_divide_of_int_eq [of "numeral m" "numeral n", where ?'a = rat] by simp

lemma ceiling_rat_numeral_divide:
  "\<lceil>numeral m / numeral n :: rat\<rceil> = - (- numeral m div numeral n)"
  using ceiling_divide_eq_div [of "numeral m" "numeral n", where ?'a = rat] by simp

lemmas js_eval =
  exponent_def ulp_def round_half_even_def round_double_def Let_def bits.simps
  floor_rat_numeral_divide ceiling_rat_numeral_divide
  digits.simps decade_def printed_digit_def js_times_def trunc_def parseInt_def
  js_plus_def number_obj_def

text \<open>
  Some values. The double of a third is below a third, and its product with 612 is
  rounded up to 204. The double of \<open>10\<^sup>-\<^sup>6\<close> prints as \<^verbatim>\<open>0.000001\<close> and the double
  of \<open>10\<^sup>-\<^sup>7\<close> as \<^verbatim>\<open>1e-7\<close>; \<open>0.57 * 100\<close> is the double below 57; \<open>10\<^sup>2\<^sup>1\<close>
  prints as \<^verbatim>\<open>1e+21\<close>; the product of two doubles near \<open>10\<^sup>2\<^sup>0\<^sup>0\<close> is infinite.
\<close>

lemma round_double_third: "round_double (1 / 3) = 6004799503160661 / 2 ^ 54"
  by (simp add: js_eval)

lemma parseInt_third_of_612:
  "parseInt (js_times (6004799503160661 / 2 ^ 54) 612) = Some 204"
  by (simp add: js_eval)

lemma parseInt_millionth: "parseInt (Finite (round_double (1 / 10 ^ 6))) = Some 0"
  by (simp add: js_eval)

lemma parseInt_ten_millionth: "parseInt (Finite (round_double (1 / 10 ^ 7))) = Some 1"
  by (simp add: js_eval)

lemma parseInt_57_hundredths:
  "round_double (57 / 100) = 5134103575202365 / 2 ^ 53 \<and>
   parseInt (js_times (5134103575202365 / 2 ^ 53) 100) = Some 56"
  by (simp add: js_eval)

lemma parseInt_exponent_notation:
  "parseInt (js_times 1 (10 ^ 21)) = Some 1 \<and>
   parseInt (js_times 1 999999999999999868928) = Some 999999999999999868928"
  by (simp add: js_eval)

lemma parseInt_infinite: "parseInt (js_times (2 ^ 665) (2 ^ 665)) = None"
  by (simp add: js_eval)

lemma plus_one_small: "n < 2 ^ 53 \<Longrightarrow> plus_one n = n + 1"
  by (simp add: plus_one_def)


lemma plus_one_values:
  "plus_one 10 = 11 \<and> plus_one (2 ^ 53 - 1) = 2 ^ 53 \<and> plus_one (2 ^ 53) = 2 ^ 53 \<and>
   plus_one (2 ^ 53 + 2) = 2 ^ 53 + 4 \<and> plus_one (2 ^ 54) = 2 ^ 54"
  by (simp add: plus_one_def)

section \<open>Dictionaries\<close>

lemma getKeys_Dict_set:
  "getKeys (Dict_set d k v) = (if k \<in> set (getKeys d) then getKeys d else getKeys d @ [k])"
  by (induction d) (force simp: getKeys_def)+

lemma map_of_Dict_set: "map_of (Dict_set d k v) = (map_of d)(k \<mapsto> v)"
  by (induction d) (auto simp: fun_eq_iff)

lemma getRaw_Dict_set: "getRaw (Dict_set d k v) k' = (if k' = k then v else getRaw d k')"
  by (simp add: getRaw_def map_of_Dict_set)

lemma Dict_set_fresh: "k \<notin> set (getKeys d) \<Longrightarrow> Dict_set d k v = d @ [(k, v)]"
  by (induction d) (auto simp: getKeys_def)

text \<open>
  On keys that are distinct and not yet in the new dictionary, the loop appends the
  entries of the keys other than \<^verbatim>\<open>Annots\<close>, in order.
\<close>

lemma copyKeys_fresh:
  "distinct ks \<Longrightarrow> set ks \<inter> set (getKeys acc) = {} \<Longrightarrow>
   copyKeys pd ks acc =
     acc @ map (\<lambda>k. (k, getRaw pd k)) (filter (\<lambda>k. k \<noteq> ''Annots'') ks)"
proof (induction ks arbitrary: acc)
  case Nil
  then show ?case by simp
next
  case (Cons k ks)
  show ?case
  proof (cases "k = ''Annots''")
    case True
    with Cons show ?thesis by simp
  next
    case False
    from Cons.prems have fresh: "k \<notin> set (getKeys acc)" by auto
    from Cons.prems have "set ks \<inter> set (getKeys (acc @ [(k, getRaw pd k)])) = {}"
      by (auto simp: getKeys_def)
    with Cons.IH [of "acc @ [(k, getRaw pd k)]"] Cons.prems False fresh
    show ?thesis by (simp add: Dict_set_fresh)
  qed
qed

lemma entries_of_distinct:
  "distinct (map fst pd) \<Longrightarrow> map (\<lambda>k. (k, getRaw pd k)) (map fst pd) = pd"
proof (induction pd)
  case Nil
  then show ?case by simp
next
  case (Cons kv pd)
  obtain k v where kv: "kv = (k, v)" by (cases kv)
  from Cons.prems kv have notin: "k \<notin> fst ` set pd" and dist: "distinct (map fst pd)"
    by auto
  have "map (\<lambda>k'. (k', getRaw ((k, v) # pd) k')) (map fst pd) =
        map (\<lambda>k'. (k', getRaw pd k')) (map fst pd)"
    using notin by (auto simp: getRaw_def)
  with Cons.IH [OF dist] kv show ?case by (simp add: getRaw_def)
qed

lemma copyKeys_pageDict:
  assumes "distinct (getKeys pd)"
  shows "copyKeys pd (getKeys pd) Dict_new = filter (\<lambda>(k, v). k \<noteq> ''Annots'') pd"
proof -
  have "copyKeys pd (getKeys pd) Dict_new =
        map (\<lambda>k. (k, getRaw pd k)) (filter (\<lambda>k. k \<noteq> ''Annots'') (getKeys pd))"
    using assms copyKeys_fresh [of "getKeys pd" Dict_new pd]
    by (simp add: Dict_new_def getKeys_def)
  also have "\<dots> = filter (\<lambda>(k, v). k \<noteq> ''Annots'') (map (\<lambda>k. (k, getRaw pd k)) (getKeys pd))"
    by (simp add: filter_map comp_def)
  also have "\<dots> = filter (\<lambda>(k, v). k \<noteq> ''Annots'') pd"
    using assms entries_of_distinct [of pd] by (simp add: getKeys_def)
  finally show ?thesis .
qed

lemma Annots_notin_copyKeys:
  "''Annots'' \<notin> set (getKeys acc) \<Longrightarrow> ''Annots'' \<notin> set (getKeys (copyKeys pd ks acc))"
  by (induction ks arbitrary: acc) (auto simp: getKeys_Dict_set)

lemma newPageDict_distinct:
  assumes "distinct (getKeys pd)"
  shows "Dict_set (copyKeys pd (getKeys pd) Dict_new) ''Annots'' x =
         filter (\<lambda>(k, v). k \<noteq> ''Annots'') pd @ [(''Annots'', x)]"
proof -
  have "''Annots'' \<notin> set (getKeys (filter (\<lambda>(k, v). k \<noteq> ''Annots'') pd))"
    by (auto simp: getKeys_def)
  then show ?thesis
    using assms by (simp add: copyKeys_pageDict Dict_set_fresh)
qed

lemma getKeys_without_Annots:
  "filter (\<lambda>k. k \<noteq> ''Annots'')
     (getKeys (filter (\<lambda>(k, v). k \<noteq> ''Annots'') pd @ [(''Annots'', x)])) =
   filter (\<lambda>k. k \<noteq> ''Annots'') (getKeys pd)"
  by (induction pd) (auto simp: getKeys_def)

lemma getRaw_without_Annots:
  "k \<noteq> ''Annots'' \<Longrightarrow>
   getRaw (filter (\<lambda>(k, v). k \<noteq> ''Annots'') pd @ [(''Annots'', x)]) k = getRaw pd k"
  by (induction pd) (auto simp: getRaw_def)

lemma getRaw_Annots:
  "getRaw (filter (\<lambda>(k, v). k \<noteq> ''Annots'') pd @ [(''Annots'', x)]) ''Annots'' = x"
  by (induction pd) (auto simp: getRaw_def)

text \<open>
  The loop reads the page dictionary only at the keys other than \<^verbatim>\<open>Annots\<close>.
\<close>

lemma copyKeys_cong:
  "(\<And>k. k \<in> set ks \<Longrightarrow> k \<noteq> ''Annots'' \<Longrightarrow> getRaw pd k = getRaw pd' k) \<Longrightarrow>
   copyKeys pd ks acc = copyKeys pd' ks acc"
  by (induction ks arbitrary: acc) simp_all

section \<open>Pushing to the annotations of a page\<close>

lemma push_fields [simp]:
  "ref (push pg x) = ref pg"
  "view (push pg x) = view pg"
  "annotations (push pg x) = annotations pg @ [x]"
  "annotsShared (push pg x) = annotsShared pg"
  by (simp_all add: push_def)

lemma getKeys_push [simp]: "getKeys (pageDict (push pg x)) = getKeys (pageDict pg)"
  by (simp add: push_def getKeys_def comp_def case_prod_unfold)

lemma map_of_Annots_update:
  "map_of (map (\<lambda>(k, v). if k = ''Annots'' then (k, y) else (k, v)) d) k' =
     (if k' = ''Annots'' then map_option (\<lambda>v. y) (map_of d k') else map_of d k')"
  by (induction d) auto

lemma map_of_push:
  "map_of (pageDict (push pg x)) k =
     (if annotsShared pg \<and> k = ''Annots''
      then map_option (\<lambda>v. Arr (annotations pg @ [x])) (map_of (pageDict pg) k)
      else map_of (pageDict pg) k)"
  by (simp add: push_def map_of_Annots_update)

lemma getRaw_push:
  "k \<noteq> ''Annots'' \<Longrightarrow> getRaw (pageDict (push pg x)) k = getRaw (pageDict pg) k"
  by (simp add: getRaw_def map_of_push)

lemma getRaw_push_Annots:
  assumes "annotsShared pg" and "has (pageDict pg) ''Annots''"
  shows "getRaw (pageDict (push pg x)) ''Annots'' = Arr (annotations pg @ [x])"
proof -
  from assms(2) have "map_of (pageDict pg) ''Annots'' \<noteq> None"
    by (simp add: has_def getKeys_def map_of_eq_None_iff)
  then obtain v where "map_of (pageDict pg) ''Annots'' = Some v" by blast
  with assms(1) show ?thesis by (simp add: getRaw_def map_of_push)
qed

lemma pageDict_push_unshared: "\<not> annotsShared pg \<Longrightarrow> pageDict (push pg x) = pageDict pg"
  by (simp add: push_def)

lemma copyKeys_push:
  "copyKeys (pageDict (push pg x)) ks acc = copyKeys (pageDict pg) ks acc"
  by (simp add: getRaw_push copyKeys_cong [of _ "pageDict (push pg x)" "pageDict pg"])

lemma annotationDict_push [simp]: "annotationDict a (push pg x) = annotationDict a pg"
  by (simp add: annotationDict_def)

section \<open>What a call of the writer does\<close>

lemma getPage_trailer_update [simp]: "getPage (d\<lparr>trailer := t\<rparr>) i = getPage d i"
  by (simp add: getPage_def)

lemma getPage_startXRef_update [simp]: "getPage (d\<lparr>startXRef := n\<rparr>) i = getPage d i"
  by (simp add: getPage_def)

lemma getPage_InrD:
  "getPage d i = Inr pg \<Longrightarrow>
   0 \<le> i \<and> i < int (length (pages d)) \<and> nat i < length (pages d) \<and> pages d ! nat i = pg"
  by (auto simp: getPage_def split: if_splits)

lemmas writer_defs =
  new_PDFDataWriter_def called_def setTrailer_def setStartXRef_def startObj_def
  appendDict_def endObj_def appendTrailer_def

text \<open>
  When the page does not resolve, the call leaves the document with the new
  \<^verbatim>\<open>Size\<close> and settles to the failure.
\<close>

lemma writeAnnotation_failure:
  "getPage d (page a) = Inl e \<Longrightarrow>
   writeAnnotation f d a bl =
     (d\<lparr>trailer := (trailer d)\<lparr>Size := plus_one (Size (trailer d))\<rparr>\<rparr>, Inl e)"
  by (simp add: writeAnnotation_def Let_def)

text \<open>
  When the page resolves, the call settles to the serialised writer that received
  these nine calls, and leaves the page with the new reference pushed.
\<close>

lemma writeAnnotation_success:
  "getPage d (page a) = Inr pg \<Longrightarrow>
   writeAnnotation f d a bl =
     (d\<lparr>trailer := (trailer d)\<lparr>Size := plus_one (Size (trailer d))\<rparr>,
        pages := (pages d)[nat (page a) := push pg (RefObj (Ref (Size (trailer d)) 0))]\<rparr>,
      Inr (f \<lparr>w_data = None, w_byteLength = bl,
              w_calls =
                [SetTrailer ((trailer d)\<lparr>Size := plus_one (Size (trailer d))\<rparr>),
                 SetStartXRef (startXRef d),
                 StartObj (Ref (Size (trailer d)) 0),
                 AppendDict (annotationDict a pg),
                 EndObj,
                 StartObj (ref pg),
                 AppendDict
                   (Dict_set (copyKeys (pageDict pg) (getKeys (pageDict pg)) Dict_new)
                      ''Annots''
                      (Arr (annotations pg @ [RefObj (Ref (Size (trailer d)) 0)]))),
                 EndObj,
                 AppendTrailer]\<rparr>))"
  by (simp add: writeAnnotation_def Let_def writer_defs copyKeys_push)

lemma writtenObjects_success:
  "getPage d (page a) = Inr pg \<Longrightarrow>
   writtenObjects d a bl =
     Inr [(Ref (Size (trailer d)) 0, annotationDict a pg),
          (ref pg,
           Dict_set (copyKeys (pageDict pg) (getKeys (pageDict pg)) Dict_new) ''Annots''
             (Arr (annotations pg @ [RefObj (Ref (Size (trailer d)) 0)])))]"
  by (simp add: writtenObjects_def writeAnnotation_success)

lemma writtenObjects_failure:
  "getPage d (page a) = Inl e \<Longrightarrow> writtenObjects d a bl = Inl e"
  by (simp add: writtenObjects_def writeAnnotation_failure)

lemma pages_writeAnnotation_success:
  "getPage d (page a) = Inr pg \<Longrightarrow>
   pages (fst (writeAnnotation f d a bl)) =
     (pages d)[nat (page a) := push pg (RefObj (Ref (Size (trailer d)) 0))]"
  by (simp add: writeAnnotation_success)

lemma getPage_writeAnnotation_success:
  assumes "getPage d (page a) = Inr pg"
  shows "getPage (fst (writeAnnotation f d a bl)) (page a) =
           Inr (push pg (RefObj (Ref (Size (trailer d)) 0)))"
  using getPage_InrD [OF assms]
  by (simp add: pages_writeAnnotation_success [OF assms] getPage_def)

lemma getPage_writeAnnotation_other:
  assumes "i \<noteq> page a"
  shows "getPage (fst (writeAnnotation f d a bl)) i = getPage d i"
proof (cases "getPage d (page a)")
  case (Inl e)
  then show ?thesis by (simp add: writeAnnotation_failure)
next
  case (Inr pg)
  from getPage_InrD [OF Inr] assms have "0 \<le> i \<Longrightarrow> nat (page a) \<noteq> nat i"
    by auto
  then show ?thesis
    by (simp add: pages_writeAnnotation_success [OF Inr] getPage_def)
qed

lemma last_getKeys_newPageDict:
  "last (getKeys (Dict_set (copyKeys pd ks Dict_new) ''Annots'' x)) = ''Annots''"
proof -
  have "''Annots'' \<notin> set (getKeys (copyKeys pd ks Dict_new))"
    by (rule Annots_notin_copyKeys) (simp add: Dict_new_def getKeys_def)
  then show ?thesis by (simp add: getKeys_Dict_set)
qed


lemma fst_writeAnnotation:
  "fst (writeAnnotation f d a bl) = fst (writeAnnotation g d a bl)"
  by (cases "getPage d (page a)") (simp_all add: writeAnnotation_failure writeAnnotation_success)

lemma annotateDocument_loaded:
  "loadedStream m = Inr bytes \<Longrightarrow>
   annotateDocument f m a =
     (m\<lparr>pdfDocument := fst (writeAnnotation f (pdfDocument m) a (length bytes))\<rparr>,
      snd (writeAnnotation f (pdfDocument m) a (length bytes)))"
  by (simp add: annotateDocument_def split: prod.splits)


lemma scenario_getPage:
  "getPage scenario_document (page scenario_annotation) = Inr scenario_page"
  by (simp add: getPage_def scenario_document_def scenario_annotation_def)

lemma scenario_Rect:
  "parseInt (js_times (1 / 2) 612) = Some 306 \<and> js_plus (Some 306) 12 = Some 318 \<and>
   parseInt (js_times (1 / 2) 792) = Some 396 \<and> js_plus (Some 396) 10 = Some 406"
  by (simp add: js_eval)

lemma scenario_annotationDict:
  "annotationDict scenario_annotation scenario_page =
     [(''Type'', Name ''Annot''),
      (''Rect'', Arr [Num 306, Num 396, Num 318, Num 406]),
      (''Subtype'', Name ''Text''),
      (''Contents'', Str ''hello''),
      (''T'', Str ''A'')]"
  using scenario_Rect
  by (simp add: annotationDict_def Let_def Dict_new_def number_obj_def
      scenario_annotation_def scenario_page_def)

section \<open>The rewritten page dictionary\<close>

text \<open>
  Claim C4 ends on the original page dictionary, which it says is never modified. The
  write pushes the new reference to \<^verbatim>\<open>pdfPage.annotations\<close>, and in the scenario
  that array is the one under \<^verbatim>\<open>Annots\<close> of the page's dictionary: the page's own
  dictionary reads \<^verbatim>\<open>[7 0 R]\<close> there before the write and
  \<^verbatim>\<open>[7 0 R, 10 0 R]\<close> after it.
\<close>

theorem page_dict_modified_counterexample:
  "getRaw (pageDict (pages scenario_document ! 0)) ''Annots'' = Arr [RefObj (Ref 7 0)] \<and>
   getRaw (pageDict (pages (fst (writeAnnotation id scenario_document scenario_annotation 5000)) ! 0))
     ''Annots'' = Arr [RefObj (Ref 7 0), RefObj (Ref 10 0)]"
proof -
  have "pages (fst (writeAnnotation id scenario_document scenario_annotation 5000)) =
          (pages scenario_document)[nat (page scenario_annotation) :=
             push scenario_page (RefObj (Ref (Size (trailer scenario_document)) 0))]"
    using scenario_getPage by (rule pages_writeAnnotation_success)
  then show ?thesis
    by (simp add: scenario_document_def scenario_annotation_def scenario_page_def
        push_def getRaw_def)
qed

text \<open>
  Claim C4, amended. For a page that resolves and whose dictionary has unique keys, the
  rewritten page dictionary written under the page's own reference is the original's
  entries other than \<^verbatim>\<open>Annots\<close>, in their order and with their raw values, followed
  by \<^verbatim>\<open>Annots\<close> bound to the page's annotations with the new reference appended.
  The page's own dictionary keeps its keys, their order and the raw value of every
  key other than \<^verbatim>\<open>Annots\<close>; its value under \<^verbatim>\<open>Annots\<close> reads the updated
  sequence when that value is the page's annotations array, and the dictionary is
  unchanged when it is not. The other pages are as before.
\<close>

theorem rewritten_page_dict:
  assumes "getPage d (page a) = Inr pg" and "distinct (getKeys (pageDict pg))"
  shows "\<exists>ad npd pg'.
           writtenObjects d a bl = Inr [(Ref (Size (trailer d)) 0, ad), (ref pg, npd)] \<and>
           npd = filter (\<lambda>(k, v). k \<noteq> ''Annots'') (pageDict pg) @
                   [(''Annots'', Arr (annotations pg @ [RefObj (Ref (Size (trailer d)) 0)]))] \<and>
           filter (\<lambda>k. k \<noteq> ''Annots'') (getKeys npd) =
             filter (\<lambda>k. k \<noteq> ''Annots'') (getKeys (pageDict pg)) \<and>
           (\<forall>k. k \<noteq> ''Annots'' \<longrightarrow> getRaw npd k = getRaw (pageDict pg) k) \<and>
           getRaw npd ''Annots'' = Arr (annotations pg @ [RefObj (Ref (Size (trailer d)) 0)]) \<and>
           getPage (fst (writeAnnotation f d a bl)) (page a) = Inr pg' \<and>
           getKeys (pageDict pg') = getKeys (pageDict pg) \<and>
           (\<forall>k. k \<noteq> ''Annots'' \<longrightarrow> getRaw (pageDict pg') k = getRaw (pageDict pg) k) \<and>
           (annotsShared pg \<and> has (pageDict pg) ''Annots'' \<longrightarrow>
              getRaw (pageDict pg') ''Annots'' =
                Arr (annotations pg @ [RefObj (Ref (Size (trailer d)) 0)])) \<and>
           (\<not> annotsShared pg \<longrightarrow> pageDict pg' = pageDict pg) \<and>
           (\<forall>i. i \<noteq> page a \<longrightarrow> getPage (fst (writeAnnotation f d a bl)) i = getPage d i)"
proof -
  let ?r = "Ref (Size (trailer d)) 0"
  let ?v = "Arr (annotations pg @ [RefObj ?r])"
  let ?npd = "filter (\<lambda>(k, v). k \<noteq> ''Annots'') (pageDict pg) @ [(''Annots'', ?v)]"
  let ?pg' = "push pg (RefObj ?r)"
  have "Dict_set (copyKeys (pageDict pg) (getKeys (pageDict pg)) Dict_new) ''Annots'' ?v = ?npd"
    using assms(2) by (rule newPageDict_distinct)
  with assms(1)
  have w: "writtenObjects d a bl = Inr [(?r, annotationDict a pg), (ref pg, ?npd)]"
    by (simp add: writtenObjects_success)
  have keys: "filter (\<lambda>k. k \<noteq> ''Annots'') (getKeys ?npd) =
              filter (\<lambda>k. k \<noteq> ''Annots'') (getKeys (pageDict pg))"
    by (rule getKeys_without_Annots)
  have raw: "\<forall>k. k \<noteq> ''Annots'' \<longrightarrow> getRaw ?npd k = getRaw (pageDict pg) k"
    by (simp add: getRaw_without_Annots)
  have annots: "getRaw ?npd ''Annots'' = ?v"
    by (rule getRaw_Annots)
  have p: "getPage (fst (writeAnnotation f d a bl)) (page a) = Inr ?pg'"
    using assms(1) by (rule getPage_writeAnnotation_success)
  have own: "getKeys (pageDict ?pg') = getKeys (pageDict pg)"
    "\<forall>k. k \<noteq> ''Annots'' \<longrightarrow> getRaw (pageDict ?pg') k = getRaw (pageDict pg) k"
    "annotsShared pg \<and> has (pageDict pg) ''Annots'' \<longrightarrow> getRaw (pageDict ?pg') ''Annots'' = ?v"
    "\<not> annotsShared pg \<longrightarrow> pageDict ?pg' = pageDict pg"
    by (simp_all add: getRaw_push getRaw_push_Annots pageDict_push_unshared)
  have others: "\<forall>i. i \<noteq> page a \<longrightarrow> getPage (fst (writeAnnotation f d a bl)) i = getPage d i"
    by (simp add: getPage_writeAnnotation_other)
  from w keys raw annots p own others show ?thesis by blast
qed

theorem rewritten_page_dict_witness:
  "getPage scenario_document (page scenario_annotation) = Inr scenario_page \<and>
   distinct (getKeys (pageDict scenario_page)) \<and>
   writtenObjects scenario_document scenario_annotation 5000 =
     Inr [(Ref 10 0,
           [(''Type'', Name ''Annot''),
            (''Rect'', Arr [Num 306, Num 396, Num 318, Num 406]),
            (''Subtype'', Name ''Text''),
            (''Contents'', Str ''hello''),
            (''T'', Str ''A'')]),
          (Ref 3 0,
           [(''Type'', Name ''Page''),
            (''Parent'', RefObj (Ref 1 0)),
            (''MediaBox'', Arr [Num 0, Num 0, Num 612, Num 792]),
            (''Annots'', Arr [RefObj (Ref 7 0), RefObj (Ref 10 0)])])] \<and>
   annotsShared scenario_page \<and> has (pageDict scenario_page) ''Annots'' \<and>
   getKeys (pageDict (pages (fst (writeAnnotation id scenario_document scenario_annotation 5000)) ! 0)) =
     [''Type'', ''Annots'', ''Parent'', ''MediaBox''] \<and>
   getRaw (pageDict (pages (fst (writeAnnotation id scenario_document scenario_annotation 5000)) ! 0))
     ''Annots'' = Arr [RefObj (Ref 7 0), RefObj (Ref 10 0)] \<and>
   getPage (scenario_document\<lparr>pages := [scenario_indirect_page]\<rparr>) (page scenario_annotation) =
     Inr scenario_indirect_page \<and>
   distinct (getKeys (pageDict scenario_indirect_page)) \<and>
   \<not> annotsShared scenario_indirect_page \<and>
   pageDict (pages (fst (writeAnnotation id (scenario_document\<lparr>pages := [scenario_indirect_page]\<rparr>)
                          scenario_annotation 5000)) ! 0) =
     [(''Type'', Name ''Page''), (''Annots'', RefObj (Ref 8 0))]"
proof -
  let ?d2 = "scenario_document\<lparr>pages := [scenario_indirect_page]\<rparr>"
  have keys: "distinct (getKeys (pageDict scenario_page))"
    by (simp add: getKeys_def scenario_page_def)
  have sh: "annotsShared scenario_page" "has (pageDict scenario_page) ''Annots''"
    by (simp_all add: has_def getKeys_def scenario_page_def)
  from rewritten_page_dict [OF scenario_getPage keys, of 5000 id]
  obtain ad npd pg' where
    w: "writtenObjects scenario_document scenario_annotation 5000 =
       Inr [(Ref (Size (trailer scenario_document)) 0, ad), (ref scenario_page, npd)]"
    and n: "npd = filter (\<lambda>(k, v). k \<noteq> ''Annots'') (pageDict scenario_page) @
             [(''Annots'', Arr (annotations scenario_page @
                                [RefObj (Ref (Size (trailer scenario_document)) 0)]))]"
    and p: "getPage (fst (writeAnnotation id scenario_document scenario_annotation 5000))
              (page scenario_annotation) = Inr pg'"
    and k: "getKeys (pageDict pg') = getKeys (pageDict scenario_page)"
    and s: "annotsShared scenario_page \<and> has (pageDict scenario_page) ''Annots'' \<longrightarrow>
              getRaw (pageDict pg') ''Annots'' =
                Arr (annotations scenario_page @
                     [RefObj (Ref (Size (trailer scenario_document)) 0)])"
    by blast
  from w writtenObjects_success [OF scenario_getPage, of 5000]
  have "ad = annotationDict scenario_annotation scenario_page" by simp
  with w n have objs: "writtenObjects scenario_document scenario_annotation 5000 =
     Inr [(Ref 10 0,
           [(''Type'', Name ''Annot''),
            (''Rect'', Arr [Num 306, Num 396, Num 318, Num 406]),
            (''Subtype'', Name ''Text''),
            (''Contents'', Str ''hello''),
            (''T'', Str ''A'')]),
          (Ref 3 0,
           [(''Type'', Name ''Page''),
            (''Parent'', RefObj (Ref 1 0)),
            (''MediaBox'', Arr [Num 0, Num 0, Num 612, Num 792]),
            (''Annots'', Arr [RefObj (Ref 7 0), RefObj (Ref 10 0)])])]"
    by (simp add: scenario_annotationDict) (simp add: scenario_document_def scenario_page_def)
  from getPage_InrD [OF p]
  have pg': "pages (fst (writeAnnotation id scenario_document scenario_annotation 5000)) ! 0 = pg'"
    by (simp add: scenario_annotation_def)
  from k have own_keys: "getKeys (pageDict pg') = [''Type'', ''Annots'', ''Parent'', ''MediaBox'']"
    by (simp add: getKeys_def scenario_page_def)
  from s sh have own_annots:
    "getRaw (pageDict pg') ''Annots'' = Arr [RefObj (Ref 7 0), RefObj (Ref 10 0)]"
    by (simp add: scenario_page_def scenario_document_def)
  have p2: "getPage ?d2 (page scenario_annotation) = Inr scenario_indirect_page"
    by (simp add: getPage_def scenario_annotation_def)
  have keys2: "distinct (getKeys (pageDict scenario_indirect_page))"
    by (simp add: getKeys_def scenario_indirect_page_def)
  have ns: "\<not> annotsShared scenario_indirect_page"
    by (simp add: scenario_indirect_page_def)
  from rewritten_page_dict [OF p2 keys2, of 5000 id]
  obtain pg2 where
    q: "getPage (fst (writeAnnotation id ?d2 scenario_annotation 5000))
              (page scenario_annotation) = Inr pg2"
    and u: "\<not> annotsShared scenario_indirect_page \<longrightarrow>
              pageDict pg2 = pageDict scenario_indirect_page"
    by blast
  from getPage_InrD [OF q]
  have pg2: "pages (fst (writeAnnotation id ?d2 scenario_annotation 5000)) ! 0 = pg2"
    by (simp add: scenario_annotation_def)
  from u ns have own2: "pageDict pg2 = [(''Type'', Name ''Page''), (''Annots'', RefObj (Ref 8 0))]"
    by (simp add: scenario_indirect_page_def)
  from scenario_getPage keys objs sh pg' own_keys own_annots p2 keys2 ns pg2 own2
  show ?thesis by simp
qed

section \<open>The position of \<^verbatim>\<open>Annots\<close>\<close>

text \<open>
  Claim C9. In the rewritten page dictionary \<^verbatim>\<open>Annots\<close> is the last key in
  insertion order and occurs nowhere before, wherever it stood in the original page
  dictionary and whether or not it was there: the rewrite may move \<^verbatim>\<open>Annots\<close>
  past the other keys. In the instance below it moves from the second place to the
  last.
\<close>

theorem Annots_last_key:
  assumes "getPage d (page a) = Inr pg"
  shows "\<exists>ad npd.
           writtenObjects d a bl = Inr [(Ref (Size (trailer d)) 0, ad), (ref pg, npd)] \<and>
           last (getKeys npd) = ''Annots'' \<and>
           ''Annots'' \<notin> set (butlast (getKeys npd))"
proof -
  let ?cp = "copyKeys (pageDict pg) (getKeys (pageDict pg)) Dict_new"
  let ?v = "Arr (annotations pg @ [RefObj (Ref (Size (trailer d)) 0)])"
  have notin: "''Annots'' \<notin> set (getKeys ?cp)"
    by (rule Annots_notin_copyKeys) (simp add: Dict_new_def getKeys_def)
  then have "getKeys (Dict_set ?cp ''Annots'' ?v) = getKeys ?cp @ [''Annots'']"
    by (simp add: getKeys_Dict_set)
  with notin have "last (getKeys (Dict_set ?cp ''Annots'' ?v)) = ''Annots''"
    and "''Annots'' \<notin> set (butlast (getKeys (Dict_set ?cp ''Annots'' ?v)))"
    by simp_all
  with writtenObjects_success [OF assms, of bl] show ?thesis by simp
qed

theorem Annots_last_key_witness:
  "getPage scenario_document (page scenario_annotation) = Inr scenario_page \<and>
   getKeys (pageDict scenario_page) = [''Type'', ''Annots'', ''Parent'', ''MediaBox''] \<and>
   (\<exists>ad npd.
      writtenObjects scenario_document scenario_annotation 5000 =
        Inr [(Ref 10 0, ad), (Ref 3 0, npd)] \<and>
      getKeys npd = [''Type'', ''Parent'', ''MediaBox'', ''Annots''] \<and>
      last (getKeys npd) = ''Annots'')"
proof -
  have keys: "getKeys (pageDict scenario_page) = [''Type'', ''Annots'', ''Parent'', ''MediaBox'']"
    by (simp add: getKeys_def scenario_page_def)
  from Annots_last_key [OF scenario_getPage, of 5000] obtain ad npd where
    w: "writtenObjects scenario_document scenario_annotation 5000 =
         Inr [(Ref (Size (trailer scenario_document)) 0, ad), (ref scenario_page, npd)]"
    and l: "last (getKeys npd) = ''Annots''"
    by blast
  from w writtenObjects_success [OF scenario_getPage, of 5000]
  have "npd = Dict_set (copyKeys (pageDict scenario_page) (getKeys (pageDict scenario_page)) Dict_new)
                ''Annots'' (Arr (annotations scenario_page @ [RefObj (Ref (Size (trailer scenario_document)) 0)]))"
    by simp
  then have "getKeys npd = [''Type'', ''Parent'', ''MediaBox'', ''Annots'']"
    by (simp add: scenario_page_def getKeys_def getRaw_def Dict_new_def)
  with w l keys scenario_getPage show ?thesis
    by (simp add: scenario_document_def scenario_page_def)
qed

section \<open>The page's annotation sequence\<close>

text \<open>
  Claim C6 says that the write appends the new reference to a copy and leaves the
  page's annotations as they were. The source calls \<^verbatim>\<open>push\<close> on
  \<^verbatim>\<open>pdfPage.annotations\<close> itself: in the scenario the page has two annotations
  after the write, whatever becomes of the fragment.
\<close>

theorem annotations_changed_counterexample:
  "annotations (pages (fst (writeAnnotation (\<lambda>w. w) scenario_document scenario_annotation 5000)) ! 0)
   \<noteq> annotations (pages scenario_document ! 0)"
proof -
  have "pages (fst (writeAnnotation (\<lambda>w. w) scenario_document scenario_annotation 5000)) =
          (pages scenario_document)[nat (page scenario_annotation) :=
             push scenario_page (RefObj (Ref (Size (trailer scenario_document)) 0))]"
    using scenario_getPage by (rule pages_writeAnnotation_success)
  then show ?thesis
    by (simp add: scenario_document_def scenario_annotation_def scenario_page_def)
qed

text \<open>
  Claim C6, amended. When the page resolves, the write appends the new reference to
  the page's own annotations: afterwards the page of the document has the previous
  sequence followed by the new reference, and its reference and view, as the other
  pages, are as before. Its dictionary keeps its keys and the raw values of the keys
  other than \<^verbatim>\<open>Annots\<close>; where the value under \<^verbatim>\<open>Annots\<close> is the annotations
  array itself, it reads the grown sequence too, and where it is not, the dictionary
  is as before.
\<close>

theorem annotations_pushed_in_place:
  assumes "getPage d (page a) = Inr pg"
  shows "\<exists>pg'.
           pages (fst (writeAnnotation f d a bl)) = (pages d)[nat (page a) := pg'] \<and>
           getPage (fst (writeAnnotation f d a bl)) (page a) = Inr pg' \<and>
           annotations pg' = annotations pg @ [RefObj (Ref (Size (trailer d)) 0)] \<and>
           ref pg' = ref pg \<and>
           view pg' = view pg \<and>
           getKeys (pageDict pg') = getKeys (pageDict pg) \<and>
           (\<forall>k. k \<noteq> ''Annots'' \<longrightarrow> getRaw (pageDict pg') k = getRaw (pageDict pg) k) \<and>
           (annotsShared pg \<and> has (pageDict pg) ''Annots'' \<longrightarrow>
              getRaw (pageDict pg') ''Annots'' = Arr (annotations pg')) \<and>
           (\<not> annotsShared pg \<longrightarrow> pageDict pg' = pageDict pg) \<and>
           map ref (pages (fst (writeAnnotation f d a bl))) = map ref (pages d) \<and>
           map view (pages (fst (writeAnnotation f d a bl))) = map view (pages d)"
proof -
  let ?pg' = "push pg (RefObj (Ref (Size (trailer d)) 0))"
  from getPage_InrD [OF assms]
  have i: "nat (page a) < length (pages d)" and p: "pages d ! nat (page a) = pg"
    by simp_all
  have pgs: "pages (fst (writeAnnotation f d a bl)) = (pages d)[nat (page a) := ?pg']"
    using assms by (rule pages_writeAnnotation_success)
  have g: "getPage (fst (writeAnnotation f d a bl)) (page a) = Inr ?pg'"
    using assms by (rule getPage_writeAnnotation_success)
  have own: "annotations ?pg' = annotations pg @ [RefObj (Ref (Size (trailer d)) 0)]"
    "ref ?pg' = ref pg" "view ?pg' = view pg"
    "getKeys (pageDict ?pg') = getKeys (pageDict pg)"
    "\<forall>k. k \<noteq> ''Annots'' \<longrightarrow> getRaw (pageDict ?pg') k = getRaw (pageDict pg) k"
    "annotsShared pg \<and> has (pageDict pg) ''Annots'' \<longrightarrow>
       getRaw (pageDict ?pg') ''Annots'' = Arr (annotations ?pg')"
    "\<not> annotsShared pg \<longrightarrow> pageDict ?pg' = pageDict pg"
    by (simp_all add: getRaw_push getRaw_push_Annots pageDict_push_unshared)
  have "(map ref (pages d))[nat (page a) := ref pg] = map ref (pages d)"
    using i p by (metis list_update_id nth_map)
  with pgs have r: "map ref (pages (fst (writeAnnotation f d a bl))) = map ref (pages d)"
    by (simp add: map_update)
  have "(map view (pages d))[nat (page a) := view pg] = map view (pages d)"
    using i p by (metis list_update_id nth_map)
  with pgs have v: "map view (pages (fst (writeAnnotation f d a bl))) = map view (pages d)"
    by (simp add: map_update)
  from pgs g own r v show ?thesis by blast
qed

theorem annotations_pushed_in_place_witness:
  "getPage scenario_document (page scenario_annotation) = Inr scenario_page \<and>
   annotations scenario_page = [RefObj (Ref 7 0)] \<and>
   annotsShared scenario_page \<and> has (pageDict scenario_page) ''Annots'' \<and>
   (\<exists>pg'. pages (fst (writeAnnotation (\<lambda>w. w) scenario_document scenario_annotation 5000)) = [pg'] \<and>
      annotations pg' = [RefObj (Ref 7 0), RefObj (Ref 10 0)] \<and>
      getRaw (pageDict pg') ''Annots'' = Arr [RefObj (Ref 7 0), RefObj (Ref 10 0)] \<and>
      getRaw (pageDict pg') ''Parent'' = RefObj (Ref 1 0)) \<and>
   getPage (scenario_document\<lparr>pages := [scenario_page, scenario_indirect_page]\<rparr>) 1 =
     Inr scenario_indirect_page \<and>
   \<not> annotsShared scenario_indirect_page \<and>
   (\<exists>pg'. pages (fst (writeAnnotation (\<lambda>w. w)
                          (scenario_document\<lparr>pages := [scenario_page, scenario_indirect_page]\<rparr>)
                          (scenario_annotation\<lparr>page := 1\<rparr>) 5000)) = [scenario_page, pg'] \<and>
      annotations pg' = [RefObj (Ref 7 0), RefObj (Ref 10 0)] \<and>
      pageDict pg' = [(''Type'', Name ''Page''), (''Annots'', RefObj (Ref 8 0))])"
proof -
  let ?d2 = "scenario_document\<lparr>pages := [scenario_page, scenario_indirect_page]\<rparr>"
  let ?a2 = "scenario_annotation\<lparr>page := 1\<rparr>"
  have sh: "annotsShared scenario_page" "has (pageDict scenario_page) ''Annots''"
    and an: "annotations scenario_page = [RefObj (Ref 7 0)]"
    by (simp_all add: has_def getKeys_def scenario_page_def)
  from annotations_pushed_in_place [OF scenario_getPage, of "\<lambda>w. w" 5000]
  obtain pg' where
    "pages (fst (writeAnnotation (\<lambda>w. w) scenario_document scenario_annotation 5000)) =
       (pages scenario_document)[nat (page scenario_annotation) := pg']"
    "annotations pg' =
       annotations scenario_page @ [RefObj (Ref (Size (trailer scenario_document)) 0)]"
    "\<forall>k. k \<noteq> ''Annots'' \<longrightarrow> getRaw (pageDict pg') k = getRaw (pageDict scenario_page) k"
    "annotsShared scenario_page \<and> has (pageDict scenario_page) ''Annots'' \<longrightarrow>
       getRaw (pageDict pg') ''Annots'' = Arr (annotations pg')"
    by blast
  note inst = this
  have sc: "pages scenario_document = [scenario_page]" "Size (trailer scenario_document) = 10"
    "nat (page scenario_annotation) = 0"
    by (simp_all add: scenario_document_def scenario_annotation_def)
  have parent: "getRaw (pageDict scenario_page) ''Parent'' = RefObj (Ref 1 0)"
    by (simp add: scenario_page_def getRaw_def)
  from inst(1) have a1:
    "pages (fst (writeAnnotation (\<lambda>w. w) scenario_document scenario_annotation 5000)) = [pg']"
    by (simp add: sc)
  from inst(2) have a2: "annotations pg' = [RefObj (Ref 7 0), RefObj (Ref 10 0)]"
    by (simp add: sc an)
  from inst(4) sh a2
  have a3: "getRaw (pageDict pg') ''Annots'' = Arr [RefObj (Ref 7 0), RefObj (Ref 10 0)]"
    by simp
  from inst(3) parent have a4: "getRaw (pageDict pg') ''Parent'' = RefObj (Ref 1 0)"
    by simp
  from a1 a2 a3 a4 have
    "pages (fst (writeAnnotation (\<lambda>w. w) scenario_document scenario_annotation 5000)) = [pg'] \<and>
      annotations pg' = [RefObj (Ref 7 0), RefObj (Ref 10 0)] \<and>
      getRaw (pageDict pg') ''Annots'' = Arr [RefObj (Ref 7 0), RefObj (Ref 10 0)] \<and>
      getRaw (pageDict pg') ''Parent'' = RefObj (Ref 1 0)"
    by (intro conjI)
  then have first: "\<exists>pg'.
      pages (fst (writeAnnotation (\<lambda>w. w) scenario_document scenario_annotation 5000)) = [pg'] \<and>
      annotations pg' = [RefObj (Ref 7 0), RefObj (Ref 10 0)] \<and>
      getRaw (pageDict pg') ''Annots'' = Arr [RefObj (Ref 7 0), RefObj (Ref 10 0)] \<and>
      getRaw (pageDict pg') ''Parent'' = RefObj (Ref 1 0)"
    by (rule exI [of _ pg'])
  have p2: "getPage ?d2 (page ?a2) = Inr scenario_indirect_page"
    by (simp add: getPage_def)
  have ns: "\<not> annotsShared scenario_indirect_page"
    by (simp add: scenario_indirect_page_def)
  from annotations_pushed_in_place [OF p2, of "\<lambda>w. w" 5000]
  obtain pg2 where
    "pages (fst (writeAnnotation (\<lambda>w. w) ?d2 ?a2 5000)) = (pages ?d2)[nat (page ?a2) := pg2]"
    "annotations pg2 = annotations scenario_indirect_page @ [RefObj (Ref (Size (trailer ?d2)) 0)]"
    "\<not> annotsShared scenario_indirect_page \<longrightarrow> pageDict pg2 = pageDict scenario_indirect_page"
    by blast
  note inst2 = this
  have sc2: "pages ?d2 = [scenario_page, scenario_indirect_page]" "Size (trailer ?d2) = 10"
    "nat (page ?a2) = 1"
    by (simp_all add: scenario_document_def)
  from inst2(1) have b1:
    "pages (fst (writeAnnotation (\<lambda>w. w) ?d2 ?a2 5000)) = [scenario_page, pg2]"
    by (simp only: sc2 list_update_code One_nat_def) 
  from inst2(2) have b2: "annotations pg2 = [RefObj (Ref 7 0), RefObj (Ref 10 0)]"
    by (simp add: sc scenario_indirect_page_def)
  from inst2(3) ns
  have b3: "pageDict pg2 = [(''Type'', Name ''Page''), (''Annots'', RefObj (Ref 8 0))]"
    by (simp add: scenario_indirect_page_def)
  from b1 b2 b3 have
    "pages (fst (writeAnnotation (\<lambda>w. w) ?d2 ?a2 5000)) = [scenario_page, pg2] \<and>
      annotations pg2 = [RefObj (Ref 7 0), RefObj (Ref 10 0)] \<and>
      pageDict pg2 = [(''Type'', Name ''Page''), (''Annots'', RefObj (Ref 8 0))]"
    by (intro conjI)
  then have second: "\<exists>pg'.
      pages (fst (writeAnnotation (\<lambda>w. w) ?d2 ?a2 5000)) = [scenario_page, pg'] \<and>
      annotations pg' = [RefObj (Ref 7 0), RefObj (Ref 10 0)] \<and>
      pageDict pg' = [(''Type'', Name ''Page''), (''Annots'', RefObj (Ref 8 0))]"
    by (rule exI [of _ pg2])
  have "getPage ?d2 1 = Inr scenario_indirect_page"
    by (simp add: getPage_def)
  with scenario_getPage an sh first ns second show ?thesis by (intro conjI)
qed

section \<open>Failure of the page resolution\<close>

text \<open>
  Claim C5 says that a call whose page does not resolve leaves \<^verbatim>\<open>Size\<close>
  unchanged. The source increments \<^verbatim>\<open>Size\<close> before it asks for the page: in the
  scenario a request for page 5 of the one-page document fails and leaves
  \<^verbatim>\<open>Size\<close> at 11.
\<close>

theorem failed_page_Size_counterexample:
  "getPage scenario_document 5 = Inl (InvalidPageIndex 5) \<and>
   snd (writeAnnotation (\<lambda>w. w) scenario_document (scenario_annotation\<lparr>page := 5\<rparr>) 5000) =
     Inl (InvalidPageIndex 5) \<and>
   Size (trailer (fst (writeAnnotation (\<lambda>w. w) scenario_document
                        (scenario_annotation\<lparr>page := 5\<rparr>) 5000))) \<noteq>
     Size (trailer scenario_document)"
proof -
  have p: "getPage scenario_document (page (scenario_annotation\<lparr>page := 5\<rparr>)) = Inl (InvalidPageIndex 5)"
    by (simp add: getPage_def scenario_document_def)
  have s: "Size (trailer scenario_document) = 10"
    by (simp add: scenario_document_def)
  from writeAnnotation_failure [OF p, of "\<lambda>w. w" 5000] p s show ?thesis
    by (simp add: plus_one_def)
qed

text \<open>
  Claim C5, amended. When the stream is loaded and the page does not resolve, the
  call settles to that failure and to no bytes; the pages and \<^verbatim>\<open>startXRef\<close> of the
  document are as before, and \<^verbatim>\<open>Size\<close> has been set to \<^verbatim>\<open>size + 1\<close>, which is
  one more than it was for every \<^verbatim>\<open>Size\<close> below \<open>2\<^sup>5\<^sup>3\<close>.
\<close>

theorem failed_page_resolution:
  assumes "loadedStream m = Inr bytes" and "getPage (pdfDocument m) (page a) = Inl e"
  shows "snd (annotateDocument f m a) = Inl e \<and>
         loadedStream (fst (annotateDocument f m a)) = loadedStream m \<and>
         pdfDocument (fst (annotateDocument f m a)) =
           (pdfDocument m)\<lparr>trailer := (trailer (pdfDocument m))
              \<lparr>Size := plus_one (Size (trailer (pdfDocument m)))\<rparr>\<rparr> \<and>
         pages (pdfDocument (fst (annotateDocument f m a))) = pages (pdfDocument m) \<and>
         startXRef (pdfDocument (fst (annotateDocument f m a))) = startXRef (pdfDocument m) \<and>
         (Size (trailer (pdfDocument m)) < 2 ^ 53 \<longrightarrow>
            Size (trailer (pdfDocument (fst (annotateDocument f m a)))) =
              Size (trailer (pdfDocument m)) + 1)"
  using assms by (simp add: annotateDocument_loaded writeAnnotation_failure plus_one_small)

theorem failed_page_resolution_witness:
  "loadedStream (LocalPdfManager scenario_document [37, 80, 68, 70]) = Inr [37, 80, 68, 70] \<and>
   getPage (pdfDocument (LocalPdfManager scenario_document [37, 80, 68, 70]))
     (page (scenario_annotation\<lparr>page := 5\<rparr>)) = Inl (InvalidPageIndex 5) \<and>
   Size (trailer (pdfDocument (LocalPdfManager scenario_document [37, 80, 68, 70]))) < 2 ^ 53 \<and>
   annotateDocument (\<lambda>w. w) (LocalPdfManager scenario_document [37, 80, 68, 70])
     (scenario_annotation\<lparr>page := 5\<rparr>) =
     (LocalPdfManager
        (scenario_document\<lparr>trailer := \<lparr>Size = 11, entries = [(''Root'', RefObj (Ref 1 0))]\<rparr>\<rparr>)
        [37, 80, 68, 70],
      Inl (InvalidPageIndex 5))"
proof -
  let ?m = "LocalPdfManager scenario_document [37, 80, 68, 70]"
  let ?a = "scenario_annotation\<lparr>page := 5\<rparr>"
  have l: "loadedStream ?m = Inr [37, 80, 68, 70]"
    by (simp add: LocalPdfManager_def)
  have p: "getPage (pdfDocument ?m) (page ?a) = Inl (InvalidPageIndex 5)"
    by (simp add: getPage_def scenario_document_def LocalPdfManager_def)
  have b: "Size (trailer (pdfDocument ?m)) < 2 ^ 53"
    by (simp add: scenario_document_def LocalPdfManager_def)
  from failed_page_resolution [OF l p, of "\<lambda>w. w"]
  have "snd (annotateDocument (\<lambda>w. w) ?m ?a) = Inl (InvalidPageIndex 5)"
    and "fst (annotateDocument (\<lambda>w. w) ?m ?a) =
      LocalPdfManager
        (scenario_document\<lparr>trailer := \<lparr>Size = 11, entries = [(''Root'', RefObj (Ref 1 0))]\<rparr>\<rparr>)
        [37, 80, 68, 70]"
    by (simp_all add: LocalPdfManager_def scenario_document_def PdfManager.equality
        plus_one_def)
  with l p b show ?thesis by (simp add: prod_eq_iff)
qed

section \<open>The entries of the annotation dictionary\<close>

text \<open>
  Claim C7. The new annotation dictionary has \<^verbatim>\<open>Type\<close> bound to the name
  \<^verbatim>\<open>Annot\<close>, \<^verbatim>\<open>Subtype\<close> to the name \<^verbatim>\<open>Text\<close>, \<^verbatim>\<open>Rect\<close> to the
  computed rectangle and \<^verbatim>\<open>Contents\<close> to the contents of the request; the key
  \<^verbatim>\<open>T\<close> is present exactly when the request has an author, and is then bound to
  that author.
\<close>

theorem annotationDict_entries:
  "getKeys (annotationDict a pg) =
     [''Type'', ''Rect'', ''Subtype'', ''Contents''] @
     (case author a of None \<Rightarrow> [] | Some au \<Rightarrow> [''T'']) \<and>
   getRaw (annotationDict a pg) ''Type'' = Name ''Annot'' \<and>
   getRaw (annotationDict a pg) ''Subtype'' = Name ''Text'' \<and>
   getRaw (annotationDict a pg) ''Rect'' =
     Arr [number_obj (parseInt (js_times (coords_x (coords a)) (view_2 (view pg)))),
          number_obj (parseInt (js_times (coords_y (coords a)) (view_3 (view pg)))),
          number_obj (js_plus (parseInt (js_times (coords_x (coords a)) (view_2 (view pg)))) 12),
          number_obj (js_plus (parseInt (js_times (coords_y (coords a)) (view_3 (view pg)))) 10)] \<and>
   getRaw (annotationDict a pg) ''Contents'' = Str (contents a) \<and>
   has (annotationDict a pg) ''T'' = (author a \<noteq> None) \<and>
   map_of (annotationDict a pg) ''T'' = map_option Str (author a)"
  by (cases "author a")
    (simp_all add: annotationDict_def Let_def Dict_new_def getKeys_def getRaw_def has_def)

section \<open>The rectangle\<close>

text \<open>
  Claim C1 gives the rectangle as \<open>[trunc (x W), trunc (y H), \<dots> + 12, \<dots> + 10]\<close>
  with \<open>W\<close> and \<open>H\<close> the width and height of the view. The source multiplies by
  \<^verbatim>\<open>view[2]\<close> and \<^verbatim>\<open>view[3]\<close>, the upper right corner, and truncates with
  \<^verbatim>\<open>parseInt\<close>. On the view \<open>[100, 100, 712, 892]\<close> the middle of the page gives
  \<open>[356, 446, 368, 456]\<close> where the claim gives \<open>[306, 396, 318, 406]\<close>; and on the
  scenario's page the coordinate \<open>x = 2\<^sup>-\<^sup>3\<^sup>0\<close> gives 5 where the claim gives 0.
\<close>

theorem Rect_differs_from_spec:
  "getRaw (annotationDict scenario_annotation (scenario_page\<lparr>view := (100, 100, 712, 892)\<rparr>)) ''Rect'' =
     Arr [Num 356, Num 446, Num 368, Num 456] \<and>
   Rect_spec (100, 100, 712, 892) (coords scenario_annotation) =
     Arr [Num 306, Num 396, Num 318, Num 406] \<and>
   getRaw (annotationDict
             (scenario_annotation\<lparr>coords := \<lparr>coords_x = 1 / 2 ^ 30, coords_y = 1 / 2\<rparr>\<rparr>)
             scenario_page) ''Rect'' =
     Arr [Num 5, Num 396, Num 17, Num 406] \<and>
   Rect_spec (view scenario_page) \<lparr>coords_x = 1 / 2 ^ 30, coords_y = 1 / 2\<rparr> =
     Arr [Num 0, Num 396, Num 12, Num 406]"
proof (intro conjI)
  have x1: "parseInt (js_times (1 / 2) 712) = Some 356" "js_plus (Some 356) 12 = Some 368"
    by (simp_all add: js_eval)
  have y1: "parseInt (js_times (1 / 2) 892) = Some 446" "js_plus (Some 446) 10 = Some 456"
    by (simp_all add: js_eval)
  from x1 y1
  show "getRaw (annotationDict scenario_annotation (scenario_page\<lparr>view := (100, 100, 712, 892)\<rparr>)) ''Rect'' =
     Arr [Num 356, Num 446, Num 368, Num 456]"
    by (simp add: annotationDict_def Let_def Dict_new_def getRaw_def number_obj_def
        scenario_annotation_def scenario_page_def)
  show "Rect_spec (100, 100, 712, 892) (coords scenario_annotation) =
     Arr [Num 306, Num 396, Num 318, Num 406]"
    by (simp add: Rect_spec_def Let_def trunc_def scenario_annotation_def)
  have x2: "parseInt (js_times (1 / 2 ^ 30) 612) = Some 5" "js_plus (Some 5) 12 = Some 17"
    by (simp_all add: js_eval)
  have y2: "parseInt (js_times (1 / 2) 792) = Some 396" "js_plus (Some 396) 10 = Some 406"
    by (simp_all add: js_eval)
  from x2 y2
  show "getRaw (annotationDict
             (scenario_annotation\<lparr>coords := \<lparr>coords_x = 1 / 2 ^ 30, coords_y = 1 / 2\<rparr>\<rparr>)
             scenario_page) ''Rect'' =
     Arr [Num 5, Num 396, Num 17, Num 406]"
    by (simp add: annotationDict_def Let_def Dict_new_def getRaw_def number_obj_def
        scenario_annotation_def scenario_page_def)
  show "Rect_spec (view scenario_page) \<lparr>coords_x = 1 / 2 ^ 30, coords_y = 1 / 2\<rparr> =
     Arr [Num 0, Num 396, Num 12, Num 406]"
    by (simp add: Rect_spec_def Let_def trunc_def scenario_page_def floor_rat_numeral_divide)
qed

section \<open>Object numbers\<close>















section \<open>The \<^verbatim>\<open>ensure\<close> protocol of the three variants\<close>

text \<open>
  Claim C3. When the operation signals the missing range \<open>[b, e)\<close>, the
  progressively-fetched \<^verbatim>\<open>ensure\<close> requests exactly that range and, once it is
  fetched, is the same call on the new state of the source: the operation is
  evaluated again from scratch, and if it now returns, the promise resolves with its
  value after one request. Any other failure rejects the promise with that failure
  after the one evaluation, with no request; and when the request itself fails, its
  failure rejects the promise and the operation is not evaluated again.
\<close>

theorem NetworkPdfManager_ensure_retry:
  "(invoke obj p args s = Threw (MissingDataException b e) \<and> requestRange b e s = Inr s' \<longrightarrow>
      NetworkPdfManager_ensure requestRange obj p args (s, tr) =
      NetworkPdfManager_ensure requestRange obj p args
        (s', tr @ [Evaluated, RangeRequested b e])) \<and>
   (invoke obj p args s = Threw (MissingDataException b e) \<and> requestRange b e s = Inr s' \<and>
    invoke obj p args s' = Returned v \<longrightarrow>
      NetworkPdfManager_ensure requestRange obj p args (s, tr) =
      Some (Resolved v, s', tr @ [Evaluated, RangeRequested b e, Evaluated])) \<and>
   (invoke obj p args s = Threw (OtherException x) \<longrightarrow>
      NetworkPdfManager_ensure requestRange obj p args (s, tr) =
      Some (Rejected (OtherException x), s, tr @ [Evaluated])) \<and>
   (invoke obj p args s = Threw (MissingDataException b e) \<and> requestRange b e s = Inl ex \<longrightarrow>
      NetworkPdfManager_ensure requestRange obj p args (s, tr) =
      Some (Rejected ex, s, tr @ [Evaluated, RangeRequested b e]))"
proof (intro conjI impI)
  assume "invoke obj p args s = Threw (MissingDataException b e) \<and> requestRange b e s = Inr s'"
  then show "NetworkPdfManager_ensure requestRange obj p args (s, tr) =
      NetworkPdfManager_ensure requestRange obj p args (s', tr @ [Evaluated, RangeRequested b e])"
    by (subst NetworkPdfManager_ensure.simps) simp
next
  assume h: "invoke obj p args s = Threw (MissingDataException b e) \<and> requestRange b e s = Inr s' \<and>
    invoke obj p args s' = Returned v"
  then have "NetworkPdfManager_ensure requestRange obj p args (s, tr) =
      NetworkPdfManager_ensure requestRange obj p args (s', tr @ [Evaluated, RangeRequested b e])"
    by (subst NetworkPdfManager_ensure.simps) simp
  also from h have "\<dots> = Some (Resolved v, s', tr @ [Evaluated, RangeRequested b e, Evaluated])"
    by (subst NetworkPdfManager_ensure.simps) simp
  finally show "NetworkPdfManager_ensure requestRange obj p args (s, tr) =
      Some (Resolved v, s', tr @ [Evaluated, RangeRequested b e, Evaluated])" .
next
  assume "invoke obj p args s = Threw (OtherException x)"
  then show "NetworkPdfManager_ensure requestRange obj p args (s, tr) =
      Some (Rejected (OtherException x), s, tr @ [Evaluated])"
    by (subst NetworkPdfManager_ensure.simps) simp
next
  assume "invoke obj p args s = Threw (MissingDataException b e) \<and> requestRange b e s = Inl ex"
  then show "NetworkPdfManager_ensure requestRange obj p args (s, tr) =
      Some (Rejected ex, s, tr @ [Evaluated, RangeRequested b e])"
    by (subst NetworkPdfManager_ensure.simps) simp
qed

theorem NetworkPdfManager_ensure_retry_witness:
  "invoke scenario_catalog ''numPages'' 0 [] = Threw (MissingDataException 100 200) \<and>
   scenario_requestRange 100 200 [] = Inr [(100, 200)] \<and>
   invoke scenario_catalog ''numPages'' 0 [(100, 200)] = Returned (Some 3) \<and>
   NetworkPdfManager_ensure scenario_requestRange scenario_catalog ''numPages'' 0 ([], []) =
     Some (Resolved (Some 3), [(100, 200)], [Evaluated, RangeRequested 100 200, Evaluated]) \<and>
   invoke scenario_catalog ''getPageDict'' 7 [] =
     Threw (OtherException ''Page index out of bounds'') \<and>
   NetworkPdfManager_ensure scenario_requestRange scenario_catalog ''getPageDict'' 7 ([], []) =
     Some (Rejected (OtherException ''Page index out of bounds''), [], [Evaluated])"
proof -
  have m: "invoke scenario_catalog ''numPages'' 0 [] = Threw (MissingDataException 100 200)"
    by (simp add: invoke_def scenario_catalog_def)
  have r: "scenario_requestRange 100 200 [] = Inr [(100, 200)]"
    by (simp add: scenario_requestRange_def)
  have v: "invoke scenario_catalog ''numPages'' 0 [(100, 200)] = Returned (Some 3)"
    by (simp add: invoke_def scenario_catalog_def)
  have x: "invoke scenario_catalog ''getPageDict'' 7 [] =
             Threw (OtherException ''Page index out of bounds'')"
    by (simp add: invoke_def scenario_catalog_def)
  from NetworkPdfManager_ensure_retry
         [where obj = scenario_catalog and p = "''numPages''" and args = 0 and s = "[]"
            and b = 100 and e = 200 and requestRange = scenario_requestRange
            and s' = "[(100, 200)]" and v = "Some 3" and tr = "[]",
          THEN conjunct2, THEN conjunct1] m r v
  have "NetworkPdfManager_ensure scenario_requestRange scenario_catalog ''numPages'' 0 ([], []) =
     Some (Resolved (Some 3), [(100, 200)], [Evaluated, RangeRequested 100 200, Evaluated])"
    by simp
  moreover
  from NetworkPdfManager_ensure_retry
         [where obj = scenario_catalog and p = "''getPageDict''" and args = 7 and s = "[]"
            and requestRange = scenario_requestRange
            and x = "''Page index out of bounds''" and tr = "[]",
          THEN conjunct2, THEN conjunct2, THEN conjunct1] x
  have "NetworkPdfManager_ensure scenario_requestRange scenario_catalog ''getPageDict'' 7 ([], []) =
     Some (Rejected (OtherException ''Page index out of bounds''), [], [Evaluated])"
    by simp
  ultimately show ?thesis using m r v x by simp
qed

text \<open>
  Claim C10. In the fully-resident and the layered variant, a missing-range signal of
  the operation rejects the promise of \<^verbatim>\<open>ensure\<close> with that signal, after the one
  evaluation and with no request.
\<close>

theorem resident_ensure_propagates:
  "invoke obj p args s = Threw (MissingDataException b e) \<longrightarrow>
     LocalPdfManager_ensure obj p args (s, tr) =
       (Rejected (MissingDataException b e), s, tr @ [Evaluated]) \<and>
     UpdatePdfManager_ensure obj p args (s, tr) =
       (Rejected (MissingDataException b e), s, tr @ [Evaluated])"
  by (simp add: LocalPdfManager_ensure_def UpdatePdfManager_ensure_def)

theorem resident_ensure_propagates_witness:
  "invoke scenario_catalog ''numPages'' 0 [] = Threw (MissingDataException 100 200) \<and>
   LocalPdfManager_ensure scenario_catalog ''numPages'' 0 ([], []) =
     (Rejected (MissingDataException 100 200), [], [Evaluated]) \<and>
   UpdatePdfManager_ensure scenario_catalog ''numPages'' 0 ([], []) =
     (Rejected (MissingDataException 100 200), [], [Evaluated])"
proof -
  have m: "invoke scenario_catalog ''numPages'' 0 [] = Threw (MissingDataException 100 200)"
    by (simp add: invoke_def scenario_catalog_def)
  with resident_ensure_propagates
         [where obj = scenario_catalog and p = "''numPages''" and args = 0 and s = "[]"
            and b = 100 and e = 200 and tr = "[]"]
  show ?thesis by simp
qed

end
